theory Spec2Isabelle
  imports Main "HOL-Library.Sublist"
begin

section \<open>Go values used by the redis backend\<close>

text \<open>
  Go's \<^verbatim>\<open>error\<close> values that the client can see: \<^verbatim>\<open>redis.ErrNil\<close>, the two
  \<^verbatim>\<open>strconv\<close> errors, redigo's "unexpected type" error of its reply helpers, an error
  reply of the server (\<^verbatim>\<open>redis.Error\<close>), a transport error of the connection, and an
  error made by \<^verbatim>\<open>errors.New\<close>.
\<close>

datatype error =
    ErrNil
  | ErrSyntax
  | ErrRange
  | UnexpectedType
  | RedisError string
  | IOError string
  | ErrorString string

text \<open>
  A reply of \<^verbatim>\<open>redis.Conn.Do\<close> is an \<^verbatim>\<open>interface{}\<close> holding nil, an int64, a
  byte slice (bulk string), a Go string (simple string), a slice of replies, or a
  \<^verbatim>\<open>redis.Error\<close>.
\<close>

datatype reply =
    Nil
  | Int64 int
  | Bulk string
  | Status string
  | Array "reply list"
  | ErrorReply string

text \<open>An argument of a command: the client passes Go strings and ints.\<close>

datatype arg = S string | I int

text \<open>How a call ends: it returns, it panics, or the process exits with a status.\<close>

datatype 'a outcome = Returns 'a | Panics | Exits int

subsection \<open>\<^verbatim>\<open>strings\<close>\<close>

text \<open>\<^verbatim>\<open>strings.Split(s, sep)\<close> for a separator of one byte, as in \<^verbatim>\<open>strings.Split(address, "/")\<close>.\<close>

fun strings_Split :: "string \<Rightarrow> char \<Rightarrow> string list" where
  "strings_Split [] sep = [[]]"
| "strings_Split (c # cs) sep =
     (if c = sep then [] # strings_Split cs sep
      else (case strings_Split cs sep of
              [] \<Rightarrow> [[c]]
            | p # ps \<Rightarrow> (c # p) # ps))"

text \<open>
  \<^verbatim>\<open>strings.Replace(s, old, new, -1)\<close> for a non-empty \<^verbatim>\<open>old\<close>: every occurrence of
  \<^verbatim>\<open>old\<close>, found from left to right without overlap, is replaced by \<^verbatim>\<open>new\<close>.
\<close>

function strings_Replace_all :: "string \<Rightarrow> string \<Rightarrow> string \<Rightarrow> string" where
  "strings_Replace_all s old new =
     (if s = [] \<or> old = [] then s
      else if take (length old) s = old
        then new @ strings_Replace_all (drop (length old) s) old new
      else hd s # strings_Replace_all (tl s) old new)"
  by pat_completeness auto
termination
  by (relation "measure (\<lambda>(s, old, new). length s)") (auto simp: neq_Nil_conv)

declare strings_Replace_all.simps [simp del]

subsection \<open>\<^verbatim>\<open>strconv\<close>\<close>

definition is_digit :: "char \<Rightarrow> bool" where
  "is_digit c = (48 \<le> (of_char c :: int) \<and> (of_char c :: int) \<le> 57)"

definition digit_val :: "char \<Rightarrow> int" where
  "digit_val c = of_char c - 48"

definition maxUint64 :: int where
  "maxUint64 = 18446744073709551615"

text \<open>
  The loop of \<^verbatim>\<open>strconv.ParseUint(s, 10, 64)\<close>: a byte that is no digit is a syntax
  error with value 0; an overflow is a range error with the largest value. The
  \<^verbatim>\<open>uint64\<close> is an integer that the two tests keep below \<^verbatim>\<open>1<<64\<close>.
\<close>

fun ParseUint_loop :: "int \<Rightarrow> string \<Rightarrow> int \<times> error option" where
  "ParseUint_loop n [] = (n, None)"
| "ParseUint_loop n (c # cs) =
     (if \<not> is_digit c then (0, Some ErrSyntax)
      else if n \<ge> maxUint64 div 10 + 1 then (maxUint64, Some ErrRange)
      else if n * 10 + digit_val c > maxUint64 then (maxUint64, Some ErrRange)
      else ParseUint_loop (n * 10 + digit_val c) cs)"

definition ParseUint :: "string \<Rightarrow> int \<times> error option" where
  "ParseUint s = (if s = [] then (0, Some ErrSyntax) else ParseUint_loop 0 s)"

text \<open>\<^verbatim>\<open>strconv.ParseInt(s, 10, 0)\<close> where \<^verbatim>\<open>int\<close> has 64 bits.\<close>

definition ParseInt :: "string \<Rightarrow> int \<times> error option" where
  "ParseInt s =
     (if s = [] then (0, Some ErrSyntax)
      else
        let neg = (hd s = CHR ''-'');
            s1 = (if hd s = CHR ''+'' \<or> hd s = CHR ''-'' then tl s else s);
            (un, err) = ParseUint s1
        in if err = Some ErrSyntax then (0, err)
           else if \<not> neg \<and> un \<ge> 2 ^ 63 then (2 ^ 63 - 1, Some ErrRange)
           else if neg \<and> un > 2 ^ 63 then (- (2 ^ 63), Some ErrRange)
           else (if neg then - un else un, None))"

text \<open>
  \<^verbatim>\<open>strconv.Atoi\<close>: its fast path for short strings and its call of
  \<^verbatim>\<open>ParseInt(s, 10, 0)\<close> give the same value and the same kind of error.
\<close>

definition Atoi :: "string \<Rightarrow> int \<times> error option" where
  "Atoi s = ParseInt s"

subsection \<open>redigo's reply helpers\<close>

text \<open>
  Each helper takes the pair a command returned, as in
  \<^verbatim>\<open>redis.String(rClient.Do("GET", key))\<close>, and returns Go's pair of a value and an
  error. The zero value stands where Go returns one beside an error.
\<close>

fun redis_String :: "reply \<times> error option \<Rightarrow> string \<times> error option" where
  "redis_String (r, Some e) = ([], Some e)"
| "redis_String (Bulk b, None) = (b, None)"
| "redis_String (Status s, None) = (s, None)"
| "redis_String (Nil, None) = ([], Some ErrNil)"
| "redis_String (ErrorReply m, None) = ([], Some (RedisError m))"
| "redis_String (_, None) = ([], Some UnexpectedType)"

fun redis_Int :: "reply \<times> error option \<Rightarrow> int \<times> error option" where
  "redis_Int (r, Some e) = (0, Some e)"
| "redis_Int (Int64 n, None) = (n, None)"
| "redis_Int (Bulk b, None) = ParseInt b"
| "redis_Int (Nil, None) = (0, Some ErrNil)"
| "redis_Int (ErrorReply m, None) = (0, Some (RedisError m))"
| "redis_Int (_, None) = (0, Some UnexpectedType)"

fun redis_Values :: "reply \<times> error option \<Rightarrow> reply list \<times> error option" where
  "redis_Values (r, Some e) = ([], Some e)"
| "redis_Values (Array rs, None) = (rs, None)"
| "redis_Values (Nil, None) = ([], Some ErrNil)"
| "redis_Values (ErrorReply m, None) = ([], Some (RedisError m))"
| "redis_Values (_, None) = ([], Some UnexpectedType)"

text \<open>
  The loop of \<^verbatim>\<open>redis.Strings\<close> over an array reply: a nil element gives the empty
  string, a bulk string gives its text, any other element is an error.
\<close>

fun Strings_elems :: "reply list \<Rightarrow> string list option" where
  "Strings_elems [] = Some []"
| "Strings_elems (Nil # rs) = map_option ((#) []) (Strings_elems rs)"
| "Strings_elems (Bulk b # rs) = map_option ((#) b) (Strings_elems rs)"
| "Strings_elems (_ # rs) = None"

fun redis_Strings :: "reply \<times> error option \<Rightarrow> string list \<times> error option" where
  "redis_Strings (r, Some e) = ([], Some e)"
| "redis_Strings (Array rs, None) =
     (case Strings_elems rs of
        None \<Rightarrow> ([], Some UnexpectedType)
      | Some ss \<Rightarrow> (ss, None))"
| "redis_Strings (Nil, None) = ([], Some ErrNil)"
| "redis_Strings (ErrorReply m, None) = ([], Some (RedisError m))"
| "redis_Strings (_, None) = ([], Some UnexpectedType)"

section \<open>The world outside the client\<close>

text \<open>
  The options \<^verbatim>\<open>tryConnect\<close> passes to \<^verbatim>\<open>redis.Dial\<close>; a duration is a number of
  nanoseconds.
\<close>

datatype DialOption =
    DialConnectTimeout int
  | DialReadTimeout int
  | DialWriteTimeout int
  | DialDatabase int
  | DialPassword string

definition time_Second :: int where
  "time_Second = 1000000000"

text \<open>
  The file system, the network and the servers are a state \<open>'w\<close>; a session is a handle
  \<open>'c\<close>. \<open>os_Stat\<close> tells whether \<^verbatim>\<open>os.Stat\<close> returns a nil error, \<open>redis_Dial\<close> is
  \<^verbatim>\<open>redis.Dial(network, address, options...)\<close> and \<open>conn_Do\<close> is the session's
  \<^verbatim>\<open>Do(commandName, args...)\<close>; the last two change the state.
\<close>

record ('w, 'c) env =
  os_Stat :: "string \<Rightarrow> 'w \<Rightarrow> bool"
  redis_Dial :: "string \<Rightarrow> string \<Rightarrow> DialOption list \<Rightarrow> 'w \<Rightarrow> (error + 'c) \<times> 'w"
  conn_Do :: "'c \<Rightarrow> string \<Rightarrow> arg list \<Rightarrow> 'w \<Rightarrow> (reply \<times> error option) \<times> 'w"

section \<open>The client\<close>

record 'c Client =
  client :: "'c option"
  machines :: "string list"
  password :: string

subsection \<open>Logging\<close>

text \<open>
  Modelled from the spec: \<^verbatim>\<open>log.Fatal\<close> of the repository's \<^verbatim>\<open>log\<close> package, which is
  not among the sources. The logger's Fatal "terminates the process immediately after
  logging"; the status is 1. \<^verbatim>\<open>log.Info\<close>, \<^verbatim>\<open>log.Debug\<close> and \<^verbatim>\<open>log.Error\<close> only
  write to the log and have no definition here.
\<close>

definition log_Fatal :: "'w \<Rightarrow> 'a outcome \<times> 'w" where
  "log_Fatal w = (Exits 1, w)"

subsection \<open>\<^verbatim>\<open>tryConnect\<close>\<close>

text \<open>
  The database index of an address: the zero value unless the address splits at
  \<^verbatim>\<open>"/"\<close> into exactly two parts, where the second part is read by \<^verbatim>\<open>strconv.Atoi\<close>;
  \<open>None\<close> is the call of \<^verbatim>\<open>log.Fatal\<close>.
\<close>

definition address_database :: "string list \<Rightarrow> int option" where
  "address_database arr =
     (if length arr = 2
      then (case Atoi (arr ! 1) of
              (db, None) \<Rightarrow> Some db
            | (db, Some e) \<Rightarrow> None)
      else Some 0)"

definition dial_options :: "int \<Rightarrow> string \<Rightarrow> DialOption list" where
  "dial_options database pw =
     [DialConnectTimeout time_Second, DialReadTimeout time_Second,
      DialWriteTimeout time_Second, DialDatabase database]
     @ (if pw \<noteq> [] then [DialPassword pw] else [])"

text \<open>
  One iteration of the loop over \<^verbatim>\<open>machines\<close>, up to the result of \<^verbatim>\<open>redis.Dial\<close>;
  \<open>None\<close> is the call of \<^verbatim>\<open>log.Fatal\<close>. \<^verbatim>\<open>strings.Split\<close> returns at least one
  part, so \<^verbatim>\<open>arr[0]\<close> is in range.
\<close>

definition dial_address ::
  "('w, 'c) env \<Rightarrow> string \<Rightarrow> string \<Rightarrow> 'w \<Rightarrow> ((error + 'c) \<times> 'w) option" where
  "dial_address E pw address w =
     (let network = (if os_Stat E address w then ''unix'' else ''tcp'');
          arr = strings_Split address CHR ''/''
      in case address_database arr of
           None \<Rightarrow> None
         | Some database \<Rightarrow>
             Some (redis_Dial E network (hd arr) (dial_options database pw) w))"

text \<open>
  The loop over \<^verbatim>\<open>machines\<close>. \<open>err\<close> is the function's variable \<^verbatim>\<open>err\<close>: what
  \<^verbatim>\<open>os.Stat\<close> assigns to it is overwritten by \<^verbatim>\<open>redis.Dial\<close> before it is read again,
  so it holds the error of the last dial.
\<close>

fun tryConnect_loop ::
  "('w, 'c) env \<Rightarrow> string \<Rightarrow> error option \<Rightarrow> string list \<Rightarrow> 'w
     \<Rightarrow> ('c option \<times> error option) outcome \<times> 'w" where
  "tryConnect_loop E pw err [] w = (Returns (None, err), w)"
| "tryConnect_loop E pw err (address # rest) w =
     (case dial_address E pw address w of
        None \<Rightarrow> log_Fatal w
      | Some (Inl e, w1) \<Rightarrow> tryConnect_loop E pw (Some e) rest w1
      | Some (Inr conn, w1) \<Rightarrow> (Returns (Some conn, None), w1))"

definition tryConnect ::
  "('w, 'c) env \<Rightarrow> string list \<Rightarrow> string \<Rightarrow> 'w
     \<Rightarrow> ('c option \<times> error option) outcome \<times> 'w" where
  "tryConnect E ms pw w = tryConnect_loop E pw None ms w"

subsection \<open>\<^verbatim>\<open>connectedClient\<close>\<close>

text \<open>
  The first block of \<^verbatim>\<open>connectedClient\<close>: an existing session is tested with
  \<^verbatim>\<open>PING\<close>. \<^verbatim>\<open>resp != "PONG"\<close> compares an \<^verbatim>\<open>interface{}\<close> with a Go string, so it
  holds unless the reply is the simple string \<^verbatim>\<open>PONG\<close>. Inside the block the log line
  calls \<^verbatim>\<open>err.Error()\<close>, which panics on a nil \<^verbatim>\<open>err\<close>.
\<close>

definition test_existing ::
  "('w, 'c) env \<Rightarrow> 'c Client \<Rightarrow> 'w \<Rightarrow> unit outcome \<times> 'c Client \<times> 'w" where
  "test_existing E c w =
     (case client c of
        None \<Rightarrow> (Returns (), c, w)
      | Some conn \<Rightarrow>
          (let ((resp, err), w1) = conn_Do E conn ''PING'' [] w
           in if (err \<noteq> None \<and> err = Some ErrNil) \<or> resp \<noteq> Status ''PONG''
              then (case err of
                      None \<Rightarrow> (Panics, c, w1)
                    | Some e \<Rightarrow> (Returns (), c\<lparr>client := None\<rparr>, w1))
              else (Returns (), c, w1)))"

text \<open>
  The second block: without a session, \<^verbatim>\<open>c.client, err = tryConnect(...)\<close>; the
  field is assigned whether or not the error is nil.
\<close>

definition connectedClient ::
  "('w, 'c) env \<Rightarrow> 'c Client \<Rightarrow> 'w
     \<Rightarrow> ('c option \<times> error option) outcome \<times> 'c Client \<times> 'w" where
  "connectedClient E c w =
     (case test_existing E c w of
        (Panics, c1, w1) \<Rightarrow> (Panics, c1, w1)
      | (Exits k, c1, w1) \<Rightarrow> (Exits k, c1, w1)
      | (Returns u, c1, w1) \<Rightarrow>
          (if client c1 = None
           then (case tryConnect E (machines c1) (password c1) w1 of
                   (Panics, w2) \<Rightarrow> (Panics, c1, w2)
                 | (Exits k, w2) \<Rightarrow> (Exits k, c1, w2)
                 | (Returns (conn, err), w2) \<Rightarrow>
                     (if err \<noteq> None
                      then (Returns (None, err), c1\<lparr>client := conn\<rparr>, w2)
                      else (Returns (conn, None), c1\<lparr>client := conn\<rparr>, w2)))
           else (Returns (client c1, None), c1, w1)))"

subsection \<open>\<^verbatim>\<open>NewRedisClient\<close>\<close>

text \<open>The returned pointer is \<open>Some\<close> of the wrapper; \<open>None\<close> would be a nil pointer.\<close>

definition NewRedisClient ::
  "('w, 'c) env \<Rightarrow> string list \<Rightarrow> string \<Rightarrow> 'w
     \<Rightarrow> ('c Client option \<times> error option) outcome \<times> 'w" where
  "NewRedisClient E ms pw w =
     (let clientWrapper = \<lparr>client = None, machines = ms, password = pw\<rparr>
      in case tryConnect E ms pw w of
           (Panics, w1) \<Rightarrow> (Panics, w1)
         | (Exits k, w1) \<Rightarrow> (Exits k, w1)
         | (Returns (conn, err), w1) \<Rightarrow>
             (Returns (Some (clientWrapper\<lparr>client := conn\<rparr>), err), w1))"

subsection \<open>\<^verbatim>\<open>Remove\<close> and \<^verbatim>\<open>Set\<close>\<close>

text \<open>
  A method call on \<^verbatim>\<open>rClient\<close> panics when \<^verbatim>\<open>rClient\<close> is nil, which
  \<^verbatim>\<open>connectedClient\<close> returns beside \<^verbatim>\<open>redis.ErrNil\<close> or beside a nil error of an
  empty \<^verbatim>\<open>machines\<close>.
\<close>

definition Remove ::
  "('w, 'c) env \<Rightarrow> 'c Client \<Rightarrow> string \<Rightarrow> 'w \<Rightarrow> error option outcome \<times> 'c Client \<times> 'w" where
  "Remove E c key w =
     (case connectedClient E c w of
        (Panics, c1, w1) \<Rightarrow> (Panics, c1, w1)
      | (Exits k, c1, w1) \<Rightarrow> (Exits k, c1, w1)
      | (Returns (rClient, err), c1, w1) \<Rightarrow>
          (if err \<noteq> None \<and> err \<noteq> Some ErrNil then (Returns err, c1, w1)
           else (case rClient of
                   None \<Rightarrow> (Panics, c1, w1)
                 | Some conn \<Rightarrow>
                     (let (r, w2) = conn_Do E conn ''DEL'' [S key] w1;
                          (result, err) = redis_Int r
                      in if err = None
                         then (if result > 0 then (Returns None, c1, w2)
                               else (Returns (Some (ErrorString (''key:'' @ key @ '' not exist''))),
                                     c1, w2))
                         else (Returns err, c1, w2)))))"

definition Set ::
  "('w, 'c) env \<Rightarrow> 'c Client \<Rightarrow> string \<Rightarrow> string \<Rightarrow> 'w
     \<Rightarrow> error option outcome \<times> 'c Client \<times> 'w" where
  "Set E c key val w =
     (case connectedClient E c w of
        (Panics, c1, w1) \<Rightarrow> (Panics, c1, w1)
      | (Exits k, c1, w1) \<Rightarrow> (Exits k, c1, w1)
      | (Returns (rClient, err), c1, w1) \<Rightarrow>
          (if err \<noteq> None \<and> err \<noteq> Some ErrNil then (Returns err, c1, w1)
           else (case rClient of
                   None \<Rightarrow> (Panics, c1, w1)
                 | Some conn \<Rightarrow>
                     (let ((r, err), w2) = conn_Do E conn ''SET'' [S key, S val] w1
                      in (Returns err, c1, w2)))))"

subsection \<open>\<^verbatim>\<open>GetValues\<close>\<close>

type_synonym vars = "string \<rightharpoonup> string"

text \<open>
  The loop over the names of one page. \<open>Inl\<close> is a \<^verbatim>\<open>return vars, err\<close> out of
  \<^verbatim>\<open>GetValues\<close>, \<open>Inr\<close> the end of the loop. An item is a Go string, which
  \<^verbatim>\<open>redis.String(item, nil)\<close> reads like a simple string reply. The error of the
  follow-up \<^verbatim>\<open>GET\<close> is assigned and not read again.
\<close>

fun items_loop ::
  "('w, 'c) env \<Rightarrow> 'c \<Rightarrow> vars \<Rightarrow> string list \<Rightarrow> 'w
     \<Rightarrow> ((vars \<times> error option) + vars) \<times> 'w" where
  "items_loop E conn vars [] w = (Inr vars, w)"
| "items_loop E conn vars (item # items) w =
     (case redis_String (Status item, None) of
        (newKey, Some e) \<Rightarrow> (Inl (vars, Some e), w)
      | (newKey, None) \<Rightarrow>
          (let (r, w1) = conn_Do E conn ''GET'' [S newKey] w
           in case redis_String r of
                (v, None) \<Rightarrow> items_loop E conn (vars(newKey \<mapsto> v)) items w1
              | (v, Some e) \<Rightarrow> items_loop E conn vars items w1))"

text \<open>
  The pagination loop \<^verbatim>\<open>for { ... if idx == 0 { break } }\<close>, which need not end: the
  first argument bounds the number of its iterations, and \<open>None\<close> says that the bound
  was reached. \<^verbatim>\<open>values[0]\<close> and \<^verbatim>\<open>values[1]\<close> panic out of range; the errors of
  \<^verbatim>\<open>redis.Int\<close> and \<^verbatim>\<open>redis.Strings\<close> are discarded.
\<close>

definition scan_args :: "int \<Rightarrow> string \<Rightarrow> arg list" where
  "scan_args idx key = [I idx, S ''MATCH'', S key, S ''COUNT'', S ''1000'']"

text \<open>
  What one iteration reads from the reply of \<^verbatim>\<open>SCAN\<close>: \<open>Inl\<close> is the error it returns
  with, \<open>Inr\<close> the new cursor and the names of the page.
\<close>

definition scan_reply ::
  "reply \<times> error option \<Rightarrow> (error option + int \<times> string list) outcome" where
  "scan_reply r =
     (let (values, err) = redis_Values r
      in if err \<noteq> None \<and> err \<noteq> Some ErrNil then Returns (Inl err)
         else if length values < 1 then Panics
         else let idx = fst (redis_Int (values ! 0, None))
           in if length values < 2 then Panics
              else Returns (Inr (idx, fst (redis_Strings (values ! 1, None)))))"

fun scan_loop ::
  "nat \<Rightarrow> ('w, 'c) env \<Rightarrow> 'c \<Rightarrow> string \<Rightarrow> int \<Rightarrow> vars \<Rightarrow> 'w
     \<Rightarrow> (((vars \<times> error option) + vars) outcome \<times> 'w) option" where
  "scan_loop 0 E conn key idx vars w = None"
| "scan_loop (Suc n) E conn key idx vars w =
     (let (r, w1) = conn_Do E conn ''SCAN'' (scan_args idx key) w
      in case scan_reply r of
           Panics \<Rightarrow> Some (Panics, w1)
         | Exits k \<Rightarrow> Some (Exits k, w1)
         | Returns (Inl err) \<Rightarrow> Some (Returns (Inl (vars, err)), w1)
         | Returns (Inr (idx1, items)) \<Rightarrow>
             (case items_loop E conn vars items w1 of
                (Inl ve, w2) \<Rightarrow> Some (Returns (Inl ve), w2)
              | (Inr vars1, w2) \<Rightarrow>
                  (if idx1 = 0 then Some (Returns (Inr vars1), w2)
                   else scan_loop n E conn key idx1 vars1 w2)))"

text \<open>The pattern a key becomes after its point lookup found nothing.\<close>

definition scan_pattern :: "string \<Rightarrow> string" where
  "scan_pattern key = (if key = ''/'' then ''/*'' else key @ ''/*'')"

text \<open>The loop over the requested keys, on the session \<^verbatim>\<open>rClient\<close>.\<close>

fun keys_loop ::
  "nat \<Rightarrow> ('w, 'c) env \<Rightarrow> 'c \<Rightarrow> vars \<Rightarrow> string list \<Rightarrow> 'w
     \<Rightarrow> ((vars \<times> error option) outcome \<times> 'w) option" where
  "keys_loop n E conn vars [] w = Some (Returns (vars, None), w)"
| "keys_loop n E conn vars (key0 # keys) w =
     (let key = strings_Replace_all key0 ''/*'' [];
          (r, w1) = conn_Do E conn ''GET'' [S key] w;
          (v, err) = redis_String r
      in if err = None then keys_loop n E conn (vars(key \<mapsto> v)) keys w1
         else if err \<noteq> Some ErrNil then Some (Returns (vars, err), w1)
         else (case scan_loop n E conn (scan_pattern key) 0 vars w1 of
                 None \<Rightarrow> None
               | Some (Panics, w2) \<Rightarrow> Some (Panics, w2)
               | Some (Exits k, w2) \<Rightarrow> Some (Exits k, w2)
               | Some (Returns (Inl ve), w2) \<Rightarrow> Some (Returns ve, w2)
               | Some (Returns (Inr vars1), w2) \<Rightarrow> keys_loop n E conn vars1 keys w2))"

text \<open>
  \<^verbatim>\<open>GetValues\<close>: the map it returns is \<open>None\<close> for Go's nil map. A nil
  \<^verbatim>\<open>rClient\<close> panics at the first command, so only when there is a key.
\<close>

definition GetValues ::
  "nat \<Rightarrow> ('w, 'c) env \<Rightarrow> 'c Client \<Rightarrow> string list \<Rightarrow> 'w
     \<Rightarrow> ((vars option \<times> error option) outcome \<times> 'c Client \<times> 'w) option" where
  "GetValues n E c keys w =
     (case connectedClient E c w of
        (Panics, c1, w1) \<Rightarrow> Some (Panics, c1, w1)
      | (Exits k, c1, w1) \<Rightarrow> Some (Exits k, c1, w1)
      | (Returns (rClient, err), c1, w1) \<Rightarrow>
          (if err \<noteq> None \<and> err \<noteq> Some ErrNil then Some (Returns (None, err), c1, w1)
           else (case rClient of
                   None \<Rightarrow>
                     (if keys = [] then Some (Returns (Some Map.empty, None), c1, w1)
                      else Some (Panics, c1, w1))
                 | Some conn \<Rightarrow>
                     (case keys_loop n E conn Map.empty keys w1 of
                        None \<Rightarrow> None
                      | Some (Panics, w2) \<Rightarrow> Some (Panics, c1, w2)
                      | Some (Exits k, w2) \<Rightarrow> Some (Exits k, c1, w2)
                      | Some (Returns (vs, err1), w2) \<Rightarrow>
                          Some (Returns (Some vs, err1), c1, w2)))))"

section \<open>The supervisory loop of \<^verbatim>\<open>main\<close>\<close>

text \<open>
  The loop \<^verbatim>\<open>for { select { ... } }\<close> with what it shares with the rest of the process:
  the buffered \<^verbatim>\<open>errChan\<close> (capacity 10) and \<^verbatim>\<open>signalChan\<close> (capacity 1) as queues, and
  whether \<^verbatim>\<open>doneChan\<close> is closed.
\<close>

datatype signal = SIGINT | SIGTERM

datatype status = Running | Exited int | Panicked

record supervisor =
  errChan :: "error list"
  signalChan :: "signal list"
  doneChan_closed :: bool
  status :: status

definition supervisor_start :: supervisor where
  "supervisor_start =
     \<lparr>errChan = [], signalChan = [], doneChan_closed = False, status = Running\<rparr>"

text \<open>
  What can happen next. The processor sends an error (a send on a full channel blocks);
  the runtime delivers a signal (\<^verbatim>\<open>signal.Notify\<close> does not block: a signal that finds
  the channel full is dropped); the \<^verbatim>\<open>select\<close> runs one of its cases that is ready, and Go
  chooses among several ready cases at random.
\<close>

datatype event =
    Send_error error
  | Deliver signal
  | Case_errChan
  | Case_signalChan
  | Case_doneChan

text \<open>
  One step; \<open>None\<close> when the event cannot happen in the state. \<^verbatim>\<open>close(doneChan)\<close>
  panics on a closed channel; a receive from \<^verbatim>\<open>doneChan\<close> is ready once it is closed,
  and its case calls \<^verbatim>\<open>os.Exit(0)\<close>.
\<close>

fun step :: "supervisor \<Rightarrow> event \<Rightarrow> supervisor option" where
  "step s (Send_error e) =
     (if status s = Running \<and> length (errChan s) < 10
      then Some (s\<lparr>errChan := errChan s @ [e]\<rparr>) else None)"
| "step s (Deliver sig) =
     (if status s = Running
      then Some (if length (signalChan s) < 1 then s\<lparr>signalChan := signalChan s @ [sig]\<rparr> else s)
      else None)"
| "step s Case_errChan =
     (if status s = Running \<and> errChan s \<noteq> []
      then Some (s\<lparr>errChan := tl (errChan s)\<rparr>) else None)"
| "step s Case_signalChan =
     (if status s = Running \<and> signalChan s \<noteq> []
      then Some (if doneChan_closed s
                 then s\<lparr>signalChan := tl (signalChan s), status := Panicked\<rparr>
                 else s\<lparr>signalChan := tl (signalChan s), doneChan_closed := True\<rparr>)
      else None)"
| "step s Case_doneChan =
     (if status s = Running \<and> doneChan_closed s
      then Some (s\<lparr>status := Exited 0\<rparr>) else None)"

fun run :: "supervisor \<Rightarrow> event list \<Rightarrow> supervisor option" where
  "run s [] = Some s"
| "run s (e # es) = (case step s e of None \<Rightarrow> None | Some s1 \<Rightarrow> run s1 es)"

section \<open>Environments for observing and for examples\<close>

text \<open>
  A call the client makes on the world. \<open>recording E\<close> behaves as \<open>E\<close> and keeps the
  list of the calls made.
\<close>

datatype 'c call = Dial string string "DialOption list" | Do 'c string "arg list"

definition recording :: "('w, 'c) env \<Rightarrow> ('w \<times> 'c call list, 'c) env" where
  "recording E =
     \<lparr>os_Stat = (\<lambda>a wl. os_Stat E a (fst wl)),
      redis_Dial = (\<lambda>net a ops wl.
         (fst (redis_Dial E net a ops (fst wl)),
          (snd (redis_Dial E net a ops (fst wl)), snd wl @ [Dial net a ops]))),
      conn_Do = (\<lambda>c cmd args wl.
         (fst (conn_Do E c cmd args (fst wl)),
          (snd (conn_Do E c cmd args (fst wl)), snd wl @ [Do c cmd args])))\<rparr>"

text \<open>
  An environment without a state of its own: which paths exist, what a dial gives and what
  a session answers are fixed.
\<close>

definition fixed_env ::
  "(string \<Rightarrow> bool) \<Rightarrow> (string \<Rightarrow> string \<Rightarrow> error + 'c)
     \<Rightarrow> ('c \<Rightarrow> string \<Rightarrow> arg list \<Rightarrow> reply \<times> error option) \<Rightarrow> (unit, 'c) env" where
  "fixed_env exists dial answer =
     \<lparr>os_Stat = (\<lambda>a w. exists a),
      redis_Dial = (\<lambda>net a ops w. (dial net a, w)),
      conn_Do = (\<lambda>c cmd args w. (answer c cmd args, w))\<rparr>"

text \<open>Whether a recorded call is the command of a given name on a session.\<close>

fun is_command :: "string \<Rightarrow> 'c call \<Rightarrow> bool" where
  "is_command name (Do c cmd args) = (cmd = name)"
| "is_command name (Dial net a ops) = False"

text \<open>
  What \<^verbatim>\<open>strings.Replace(key, "/*", "", -1)\<close> computes, by cases on the first two bytes of
  the key; \<open>Replace_all_markers\<close> below shows it equal to the replacement above.
\<close>

fun remove_markers :: "string \<Rightarrow> string" where
  "remove_markers [] = []"
| "remove_markers [c] = [c]"
| "remove_markers (c # d # cs) =
     (if c = CHR ''/'' \<and> d = CHR ''*'' then remove_markers cs
      else c # remove_markers (d # cs))"



section \<open>Properties\<close>

lemma strings_Split_not_Nil: "strings_Split s sep \<noteq> []"
  by (induction s) (auto split: list.splits)

subsection \<open>\<^verbatim>\<open>tryConnect\<close>\<close>



lemma tryConnect_loop_result:
  "tryConnect_loop E pw err0 ms w = (Returns (conn, err), w1) \<Longrightarrow> err \<noteq> None \<Longrightarrow> conn = None"
  by (induction ms arbitrary: err0 w)
     (auto simp: log_Fatal_def split: option.splits sum.splits prod.splits)




text \<open>
  C7 at its two addresses, with every dial recorded. \<^verbatim>\<open>"127.0.0.1:6399/2"\<close> is dialled
  on \<^verbatim>\<open>tcp\<close> at \<^verbatim>\<open>127.0.0.1:6399\<close> with database 2, as the claim says. The existing
  path \<^verbatim>\<open>"/var/run/store.sock"\<close> is dialled on \<^verbatim>\<open>unix\<close> with database 0, but at the
  empty address: \<^verbatim>\<open>arr[0]\<close> is what stands before the first \<^verbatim>\<open>"/"\<close> of the path, not
  the path.
\<close>

theorem tryConnect_dials_recorded:
  "snd (snd (tryConnect
       (recording (fixed_env (\<lambda>a. a = ''/var/run/store.sock'')
          (\<lambda>net a. Inl (IOError ''refused'') :: error + nat) (\<lambda>c cmd args. (Nil, None))))
       [''127.0.0.1:6399/2''] [] ((), [])))
     = [Dial ''tcp'' ''127.0.0.1:6399''
          [DialConnectTimeout 1000000000, DialReadTimeout 1000000000,
           DialWriteTimeout 1000000000, DialDatabase 2]]
   \<and> snd (snd (tryConnect
       (recording (fixed_env (\<lambda>a. a = ''/var/run/store.sock'')
          (\<lambda>net a. Inl (IOError ''refused'') :: error + nat) (\<lambda>c cmd args. (Nil, None))))
       [''/var/run/store.sock''] [] ((), [])))
     = [Dial ''unix'' []
          [DialConnectTimeout 1000000000, DialReadTimeout 1000000000,
           DialWriteTimeout 1000000000, DialDatabase 0]]"
  by code_simp

subsection \<open>\<^verbatim>\<open>connectedClient\<close> and \<^verbatim>\<open>NewRedisClient\<close>\<close>

text \<open>
  C2 where it fails: a session exists and \<^verbatim>\<open>PING\<close> is answered by the simple string
  \<^verbatim>\<open>OK\<close> with a nil error. The reply is not \<^verbatim>\<open>PONG\<close>, so the block that invalidates the
  session is entered, and its log line calls \<^verbatim>\<open>err.Error()\<close> on the nil error:
  \<^verbatim>\<open>connectedClient\<close> panics, the session is not set to nil and no reconnect is tried.
\<close>

theorem connectedClient_unexpected_reply_panics:
  "connectedClient
     (fixed_env (\<lambda>a. False) (\<lambda>net a. Inr (1::nat)) (\<lambda>c cmd args. (Status ''OK'', None)))
     \<lparr>client = Some 0, machines = [''127.0.0.1:6379''], password = []\<rparr> ()
   = (Panics, \<lparr>client = Some 0, machines = [''127.0.0.1:6379''], password = []\<rparr>, ())"
  by code_simp

text \<open>
  C10, as the code has it. Whenever the first \<^verbatim>\<open>tryConnect\<close> returns, \<^verbatim>\<open>NewRedisClient\<close>
  returns a wrapper that is not nil and holds the endpoint list, the credential and the
  session \<^verbatim>\<open>tryConnect\<close> gave, beside the error \<^verbatim>\<open>tryConnect\<close> gave; with an error the
  session is nil; and on a wrapper whose session is nil, \<^verbatim>\<open>connectedClient\<close>, with which
  \<^verbatim>\<open>GetValues\<close>, \<^verbatim>\<open>Set\<close> and \<^verbatim>\<open>Remove\<close> begin, runs \<^verbatim>\<open>tryConnect\<close> again on the same endpoint
  list and credential.
\<close>

theorem NewRedisClient_wrapper:
  assumes "tryConnect E ms pw w = (Returns (conn, err), w1)"
  shows "NewRedisClient E ms pw w =
           (Returns (Some \<lparr>client = conn, machines = ms, password = pw\<rparr>, err), w1)
         \<and> (err \<noteq> None \<longrightarrow> conn = None)
         \<and> (conn = None \<longrightarrow>
              (\<forall>w2. connectedClient E \<lparr>client = conn, machines = ms, password = pw\<rparr> w2 =
                 (case tryConnect E ms pw w2 of
                    (Returns (conn2, err2), w3) \<Rightarrow>
                      (Returns (if err2 \<noteq> None then None else conn2, err2),
                       \<lparr>client = conn2, machines = ms, password = pw\<rparr>, w3)
                  | (Panics, w3) \<Rightarrow> (Panics, \<lparr>client = None, machines = ms, password = pw\<rparr>, w3)
                  | (Exits k, w3) \<Rightarrow>
                      (Exits k, \<lparr>client = None, machines = ms, password = pw\<rparr>, w3))))"
proof (intro conjI impI allI)
  show "NewRedisClient E ms pw w =
           (Returns (Some \<lparr>client = conn, machines = ms, password = pw\<rparr>, err), w1)"
    using assms by (simp add: NewRedisClient_def)
next
  assume "err \<noteq> None"
  with assms show "conn = None"
    unfolding tryConnect_def by (rule tryConnect_loop_result)
next
  fix w2
  assume "conn = None"
  then show "connectedClient E \<lparr>client = conn, machines = ms, password = pw\<rparr> w2 =
                 (case tryConnect E ms pw w2 of
                    (Returns (conn2, err2), w3) \<Rightarrow>
                      (Returns (if err2 \<noteq> None then None else conn2, err2),
                       \<lparr>client = conn2, machines = ms, password = pw\<rparr>, w3)
                  | (Panics, w3) \<Rightarrow> (Panics, \<lparr>client = None, machines = ms, password = pw\<rparr>, w3)
                  | (Exits k, w3) \<Rightarrow>
                      (Exits k, \<lparr>client = None, machines = ms, password = pw\<rparr>, w3))"
    by (simp add: connectedClient_def test_existing_def split: prod.splits outcome.splits)
qed

text \<open>A witness for C10: the only endpoint refuses the first connection.\<close>

theorem NewRedisClient_wrapper_witness:
  "NewRedisClient (fixed_env (\<lambda>a. False) (\<lambda>net a. Inl (IOError ''connection refused'') :: error + nat)
        (\<lambda>c cmd args. (Nil, None))) [''127.0.0.1:6379''] ''secret'' ()
     = (Returns (Some \<lparr>client = None, machines = [''127.0.0.1:6379''], password = ''secret''\<rparr>,
                 Some (IOError ''connection refused'')), ())
   \<and> connectedClient (fixed_env (\<lambda>a. False) (\<lambda>net a. Inl (IOError ''connection refused'') :: error + nat)
        (\<lambda>c cmd args. (Nil, None)))
        \<lparr>client = None, machines = [''127.0.0.1:6379''], password = ''secret''\<rparr> ()
     = (Returns (None, Some (IOError ''connection refused'')),
        \<lparr>client = None, machines = [''127.0.0.1:6379''], password = ''secret''\<rparr>, ())"
proof -
  define E where "E = fixed_env (\<lambda>a. False)
      (\<lambda>net a. Inl (IOError ''connection refused'') :: error + nat) (\<lambda>c cmd args. (Nil, None))"
  have t: "tryConnect E [''127.0.0.1:6379''] ''secret'' ()
      = (Returns (None, Some (IOError ''connection refused'')), ())"
    unfolding E_def by code_simp
  from NewRedisClient_wrapper [OF t] t show ?thesis
    unfolding E_def by simp
qed

text \<open>
  The counterexample to C10 as stated: for the endpoint list \<^verbatim>\<open>["127.0.0.1:6379/x"]\<close>
  \<^verbatim>\<open>NewRedisClient\<close> returns no wrapper: the process exits in \<^verbatim>\<open>log.Fatal\<close>.
\<close>

theorem NewRedisClient_fatal_counterexample:
  "fst (NewRedisClient (fixed_env (\<lambda>a. False) (\<lambda>net a. Inr (7::nat)) (\<lambda>c cmd args. (Nil, None)))
        [''127.0.0.1:6379/x''] [] ()) = Exits 1"
  by code_simp

subsection \<open>The keys \<^verbatim>\<open>GetValues\<close> looks up\<close>

lemma Replace_all_markers: "strings_Replace_all s ''/*'' [] = remove_markers s"
proof (induction s rule: remove_markers.induct)
  case 1
  show ?case by (simp add: strings_Replace_all.simps)
next
  case (2 c)
  show ?case
    by (subst strings_Replace_all.simps) (simp add: strings_Replace_all.simps [of "[]"])
next
  case (3 c d cs)
  show ?case
  proof (cases "c = CHR ''/'' \<and> d = CHR ''*''")
    case True
    with 3 show ?thesis by (subst strings_Replace_all.simps) simp
  next
    case False
    with 3 show ?thesis by (subst strings_Replace_all.simps) auto
  qed
qed

lemma remove_markers_append:
  "remove_markers (a @ ''/*'' @ b) = remove_markers a @ remove_markers b"
  by (induction a rule: remove_markers.induct) auto

lemma remove_markers_none:
  "\<not> (\<exists>a b. k = a @ ''/*'' @ b) \<Longrightarrow> remove_markers k = k"
proof (induction k rule: remove_markers.induct)
  case (3 c d cs)
  have nm: "\<not> (c = CHR ''/'' \<and> d = CHR ''*'')"
  proof
    assume "c = CHR ''/'' \<and> d = CHR ''*''"
    then have "c # d # cs = [] @ ''/*'' @ cs" by simp
    with "3.prems" show False by blast
  qed
  have "\<not> (\<exists>a b. d # cs = a @ ''/*'' @ b)"
  proof
    assume "\<exists>a b. d # cs = a @ ''/*'' @ b"
    then obtain a b where "d # cs = a @ ''/*'' @ b" by blast
    then have "c # d # cs = (c # a) @ ''/*'' @ b" by simp
    with "3.prems" show False by blast
  qed
  with 3 nm show ?case by auto
qed simp_all

lemma remove_markers_subseq: "subseq (remove_markers k) k"
  by (induction k rule: remove_markers.induct) auto

text \<open>What the loops of \<^verbatim>\<open>GetValues\<close> add to the list of recorded calls.\<close>

lemma recording_Do:
  "conn_Do (recording E) c cmd args wl =
     (fst (conn_Do E c cmd args (fst wl)),
      (snd (conn_Do E c cmd args (fst wl)), snd wl @ [Do c cmd args]))"
  by (simp add: recording_def)

lemma items_loop_recorded:
  "items_loop (recording E) conn vars items (w, l) = (r, wl) \<Longrightarrow>
     snd wl = l @ map (\<lambda>k. Do conn ''GET'' [S k]) items"
  by (induction items arbitrary: vars w l)
     (auto simp: recording_Do split: prod.splits option.splits)

lemma scan_loop_recorded:
  "scan_loop n (recording E) conn key idx vars (w, l) = Some (out, wl) \<Longrightarrow>
     \<exists>calls. snd wl = l @ Do conn ''SCAN'' (scan_args idx key) # calls
       \<and> length (filter (is_command ''SCAN'') (Do conn ''SCAN'' (scan_args idx key) # calls)) \<le> n"
proof (induction n arbitrary: idx vars w l)
  case 0
  then show ?case by simp
next
  case (Suc n)
  let ?w1 = "snd (conn_Do E conn ''SCAN'' (scan_args idx key) w)"
  let ?l1 = "l @ [Do conn ''SCAN'' (scan_args idx key)]"
  let ?r = "fst (conn_Do E conn ''SCAN'' (scan_args idx key) w)"
  show ?case
  proof (cases "scan_reply ?r")
    case Panics
    with Suc.prems show ?thesis by (auto simp: recording_Do Let_def)
  next
    case (Exits k)
    with Suc.prems show ?thesis by (auto simp: recording_Do Let_def)
  next
    case (Returns x)
    show ?thesis
    proof (cases x)
      case (Inl err)
      with Returns Suc.prems show ?thesis by (auto simp: recording_Do Let_def)
    next
      case (Inr p)
      obtain idx1 items where p: "p = (idx1, items)" by (cases p)
      obtain r2 wl2 where il: "items_loop (recording E) conn vars items (?w1, ?l1) = (r2, wl2)"
        by (cases "items_loop (recording E) conn vars items (?w1, ?l1)")
      from items_loop_recorded [OF il]
      have l2: "snd wl2 = ?l1 @ map (\<lambda>k. Do conn ''GET'' [S k]) items" .
      have nog: "filter (is_command ''SCAN'') (map (\<lambda>k. Do conn ''GET'' [S k]) items) = []"
        by (induction items) auto
      show ?thesis
      proof (cases r2)
        case (Inl ve)
        with Returns Inr p il l2 nog Suc.prems show ?thesis
          by (auto simp: recording_Do Let_def)
      next
        case r2: (Inr vars1)
        show ?thesis
        proof (cases "idx1 = 0")
          case True
          with Returns Inr p il l2 nog r2 Suc.prems show ?thesis
            by (auto simp: recording_Do Let_def)
        next
          case False
          with Returns Inr p il r2 Suc.prems
          have rec: "scan_loop n (recording E) conn key idx1 vars1 (fst wl2, snd wl2) = Some (out, wl)"
            by (auto simp: recording_Do Let_def)
          from Suc.IH [OF rec] obtain calls where
            c: "snd wl = snd wl2 @ Do conn ''SCAN'' (scan_args idx1 key) # calls"
            and n: "length (filter (is_command ''SCAN'') (Do conn ''SCAN'' (scan_args idx1 key) # calls)) \<le> n"
            by blast
          from c l2 n nog show ?thesis by auto
        qed
      qed
    qed
  qed
qed

lemma keys_loop_found:
  assumes "redis_String (fst (conn_Do E conn ''GET'' [S (strings_Replace_all key0 ''/*'' [])] w))
             = (v, None)"
  shows "keys_loop n E conn vars (key0 # keys) w =
           keys_loop n E conn (vars(strings_Replace_all key0 ''/*'' [] \<mapsto> v)) keys
             (snd (conn_Do E conn ''GET'' [S (strings_Replace_all key0 ''/*'' [])] w))"
  using assms by (auto simp: Let_def split: prod.splits)

lemma keys_loop_error:
  assumes "redis_String (fst (conn_Do E conn ''GET'' [S (strings_Replace_all key0 ''/*'' [])] w))
             = (v, Some e)"
    and "e \<noteq> ErrNil"
  shows "keys_loop n E conn vars (key0 # keys) w =
           Some (Returns (vars, Some e),
                 snd (conn_Do E conn ''GET'' [S (strings_Replace_all key0 ''/*'' [])] w))"
  using assms by (auto simp: Let_def split: prod.splits)

lemma keys_loop_not_found:
  assumes "redis_String (fst (conn_Do E conn ''GET'' [S (strings_Replace_all key0 ''/*'' [])] w))
             = (v, Some ErrNil)"
  shows "keys_loop n E conn vars (key0 # keys) w =
           (case scan_loop n E conn (scan_pattern (strings_Replace_all key0 ''/*'' [])) 0 vars
                   (snd (conn_Do E conn ''GET'' [S (strings_Replace_all key0 ''/*'' [])] w)) of
              None \<Rightarrow> None
            | Some (Panics, w2) \<Rightarrow> Some (Panics, w2)
            | Some (Exits k, w2) \<Rightarrow> Some (Exits k, w2)
            | Some (Returns (Inl ve), w2) \<Rightarrow> Some (Returns ve, w2)
            | Some (Returns (Inr vars1), w2) \<Rightarrow> keys_loop n E conn vars1 keys w2)"
  using assms by (auto simp: Let_def split: prod.splits)

declare keys_loop.simps(2) [simp del]

lemma keys_loop_recorded_step:
  assumes "keys_loop n (recording E) conn vars (key0 # keys) (w, l) = Some (out, wl)"
  shows "(\<exists>calls. snd wl = l @ Do conn ''GET'' [S (strings_Replace_all key0 ''/*'' [])] # calls)
         \<or> (\<exists>vars1 w2 calls. keys_loop n (recording E) conn vars1 keys
                 (w2, l @ Do conn ''GET'' [S (strings_Replace_all key0 ''/*'' [])] # calls)
               = Some (out, wl))"
proof -
  let ?key = "strings_Replace_all key0 ''/*'' []"
  let ?w1 = "snd (conn_Do E conn ''GET'' [S ?key] w)"
  let ?l1 = "l @ [Do conn ''GET'' [S ?key]]"
  obtain v err where rs:
    "redis_String (fst (conn_Do (recording E) conn ''GET'' [S ?key] (w, l))) = (v, err)"
    by (cases "redis_String (fst (conn_Do (recording E) conn ''GET'' [S ?key] (w, l)))")
  have w1: "snd (conn_Do (recording E) conn ''GET'' [S ?key] (w, l)) = (?w1, ?l1)"
    by (simp add: recording_Do)
  show ?thesis
  proof (cases err)
    case None
    from keys_loop_found [OF rs [unfolded None], of n vars keys] assms w1
    have "keys_loop n (recording E) conn (vars(?key \<mapsto> v)) keys (?w1, l @ Do conn ''GET'' [S ?key] # [])
            = Some (out, wl)"
      by simp
    then show ?thesis by blast
  next
    case (Some e)
    show ?thesis
    proof (cases "e = ErrNil")
      case False
      from keys_loop_error [OF rs [unfolded Some] False, of n vars keys] assms w1
      have "wl = (?w1, ?l1)" by simp
      then show ?thesis by simp
    next
      case True
      note nf = keys_loop_not_found [OF rs [unfolded Some True], of n vars keys, unfolded w1]
      show ?thesis
      proof (cases "scan_loop n (recording E) conn (scan_pattern ?key) 0 vars (?w1, ?l1)")
        case None
        with nf assms show ?thesis by simp
      next
        case (Some a)
        obtain o2 wl2 where a: "a = (o2, wl2)" by (cases a)
        from scan_loop_recorded [OF Some [unfolded a]] obtain calls where
          c2: "snd wl2 = ?l1 @ Do conn ''SCAN'' (scan_args 0 (scan_pattern ?key)) # calls"
          by blast
        show ?thesis
        proof (cases o2)
          case Panics
          with nf assms Some a c2 show ?thesis by auto
        next
          case (Exits k)
          with nf assms Some a c2 show ?thesis by auto
        next
          case (Returns x)
          show ?thesis
          proof (cases x)
            case (Inl ve)
            with Returns nf assms Some a c2 show ?thesis by auto
          next
            case (Inr vars1)
            with Returns nf assms Some a
            have "keys_loop n (recording E) conn vars1 keys (fst wl2, snd wl2) = Some (out, wl)"
              by simp
            with c2 show ?thesis by auto
          qed
        qed
      qed
    qed
  qed
qed

lemma keys_loop_recorded:
  "keys_loop n (recording E) conn vars keys (w, l) = Some (out, wl) \<Longrightarrow>
     \<exists>calls. snd wl = l @ calls"
proof (induction keys arbitrary: vars w l)
  case Nil
  then show ?case by auto
next
  case (Cons key0 keys)
  from keys_loop_recorded_step [OF Cons.prems] show ?case
  proof
    assume "\<exists>calls. snd wl = l @ Do conn ''GET'' [S (strings_Replace_all key0 ''/*'' [])] # calls"
    then show ?thesis by blast
  next
    assume "\<exists>vars1 w2 calls. keys_loop n (recording E) conn vars1 keys
                 (w2, l @ Do conn ''GET'' [S (strings_Replace_all key0 ''/*'' [])] # calls)
               = Some (out, wl)"
    then obtain vars1 w2 calls where "keys_loop n (recording E) conn vars1 keys
                 (w2, l @ Do conn ''GET'' [S (strings_Replace_all key0 ''/*'' [])] # calls)
               = Some (out, wl)" by blast
    from Cons.IH [OF this] show ?thesis by auto
  qed
qed

lemma keys_loop_first_call:
  assumes "keys_loop n (recording E) conn vars (key0 # keys) (w, l) = Some (out, wl)"
  shows "\<exists>calls. snd wl = l @ Do conn ''GET'' [S (strings_Replace_all key0 ''/*'' [])] # calls"
  using keys_loop_recorded_step [OF assms]
proof
  assume "\<exists>vars1 w2 calls. keys_loop n (recording E) conn vars1 keys
               (w2, l @ Do conn ''GET'' [S (strings_Replace_all key0 ''/*'' [])] # calls)
             = Some (out, wl)"
  then obtain vars1 w2 calls where "keys_loop n (recording E) conn vars1 keys
               (w2, l @ Do conn ''GET'' [S (strings_Replace_all key0 ''/*'' [])] # calls)
             = Some (out, wl)" by blast
  from keys_loop_recorded [OF this] show ?thesis by auto
qed

text \<open>
  C4, as the code has it. For a requested key, the first command the loop issues is the
  \<^verbatim>\<open>GET\<close> of \<^verbatim>\<open>strings.Replace(key, "/*", "", -1)\<close>. That replacement removes every
  occurrence of the marker \<^verbatim>\<open>"/*"\<close>, trailing or not: what stands before and after an
  occurrence is treated on its own. A key in which the marker does not occur is looked up
  unchanged, and the key looked up is always a subsequence of the requested key: no other
  character is changed or reordered.
\<close>

theorem GetValues_lookup_key:
  "(\<forall>out wl. keys_loop n (recording E) conn vars (key0 # keys) (w, l) = Some (out, wl) \<longrightarrow>
      (\<exists>calls. snd wl = l @ Do conn ''GET'' [S (strings_Replace_all key0 ''/*'' [])] # calls))
   \<and> strings_Replace_all (a @ ''/*'' @ b) ''/*'' []
       = strings_Replace_all a ''/*'' [] @ strings_Replace_all b ''/*'' []
   \<and> (\<not> sublist ''/*'' key0 \<longrightarrow> strings_Replace_all key0 ''/*'' [] = key0)
   \<and> subseq (strings_Replace_all key0 ''/*'' []) key0"
proof (intro conjI allI impI)
  fix out wl
  assume "keys_loop n (recording E) conn vars (key0 # keys) (w, l) = Some (out, wl)"
  then show "\<exists>calls. snd wl = l @ Do conn ''GET'' [S (strings_Replace_all key0 ''/*'' [])] # calls"
    by (rule keys_loop_first_call)
next
  show "strings_Replace_all (a @ ''/*'' @ b) ''/*'' []
       = strings_Replace_all a ''/*'' [] @ strings_Replace_all b ''/*'' []"
    unfolding Replace_all_markers by (rule remove_markers_append)
next
  assume "\<not> sublist ''/*'' key0"
  then have "\<not> (\<exists>a b. key0 = a @ ''/*'' @ b)" by (simp add: sublist_def)
  then show "strings_Replace_all key0 ''/*'' [] = key0"
    unfolding Replace_all_markers by (rule remove_markers_none)
next
  show "subseq (strings_Replace_all key0 ''/*'' []) key0"
    unfolding Replace_all_markers by (rule remove_markers_subseq)
qed

text \<open>
  A witness for C4: the key \<^verbatim>\<open>"/app/*"\<close> is looked up as \<^verbatim>\<open>"/app"\<close> and the key
  \<^verbatim>\<open>"/db"\<close>, which has no marker, as it is.
\<close>

theorem GetValues_lookup_key_witness:
  "snd (snd (the (keys_loop 1
       (recording (fixed_env (\<lambda>a. False) (\<lambda>net a. Inr (0::nat)) (\<lambda>c cmd args. (Bulk ''v'', None))))
       0 Map.empty [''/app/*'', ''/db''] ((), []))))
     = [Do 0 ''GET'' [S ''/app''], Do 0 ''GET'' [S ''/db'']]
   \<and> strings_Replace_all ''/db'' ''/*'' [] = ''/db''"
proof -
  define E where "E = fixed_env (\<lambda>a. False) (\<lambda>net a. Inr (0::nat)) (\<lambda>c cmd args. (Bulk ''v'', None))"
  have r: "map_option (\<lambda>r. snd (snd r)) (keys_loop 1 (recording E) 0 Map.empty [''/app/*'', ''/db''] ((), []))
      = Some [Do 0 ''GET'' [S ''/app''], Do 0 ''GET'' [S ''/db'']]"
    unfolding E_def by code_simp
  have ns: "\<not> sublist ''/*'' ''/db''" by code_simp
  from GetValues_lookup_key [of 1 E 0 Map.empty "''/app/*''" "[''/db'']" "()" "[]" "[]" "[]"] ns
    GetValues_lookup_key [of 1 E 0 Map.empty "''/db''" "[]" "()" "[]" "[]" "[]"] r
  show ?thesis unfolding E_def by auto
qed

text \<open>
  The counterexample to C4 as stated: for the key \<^verbatim>\<open>"/a/*/b"\<close>, whose marker is not at the
  end, the lookup is of \<^verbatim>\<open>"/a/b"\<close>; the marker is not preserved.
\<close>

theorem GetValues_inner_marker_counterexample:
  "(case keys_loop 1
       (recording (fixed_env (\<lambda>a. False) (\<lambda>net a. Inr (0::nat)) (\<lambda>c cmd args. (Bulk ''v'', None))))
       0 Map.empty [''/a/*/b''] ((), [])
    of Some (out, wl) \<Rightarrow> snd wl = [Do 0 ''GET'' [S ''/a/b'']] | None \<Rightarrow> False)
   \<and> strings_Replace_all ''/a/*/b'' ''/*'' [] \<noteq> ''/a/*/b''"
  by code_simp

subsection \<open>The pagination loop\<close>

lemma scan_loop_Suc:
  "scan_loop (Suc n) E conn key idx vars w =
     (case scan_reply (fst (conn_Do E conn ''SCAN'' (scan_args idx key) w)) of
        Panics \<Rightarrow> Some (Panics, snd (conn_Do E conn ''SCAN'' (scan_args idx key) w))
      | Exits k \<Rightarrow> Some (Exits k, snd (conn_Do E conn ''SCAN'' (scan_args idx key) w))
      | Returns (Inl err) \<Rightarrow>
          Some (Returns (Inl (vars, err)), snd (conn_Do E conn ''SCAN'' (scan_args idx key) w))
      | Returns (Inr (idx1, items)) \<Rightarrow>
          (case items_loop E conn vars items
                  (snd (conn_Do E conn ''SCAN'' (scan_args idx key) w)) of
             (Inl ve, w2) \<Rightarrow> Some (Returns (Inl ve), w2)
           | (Inr vars1, w2) \<Rightarrow>
               (if idx1 = 0 then Some (Returns (Inr vars1), w2)
                else scan_loop n E conn key idx1 vars1 w2)))"
  by (auto split: prod.splits outcome.splits sum.splits)

declare scan_loop.simps(2) [simp del]

lemma scan_loop_within:
  assumes cursor: "\<And>idx w nxt items.
      scan_reply (fst (conn_Do E conn ''SCAN'' (scan_args idx key) w)) = Returns (Inr (nxt, items))
        \<Longrightarrow> nxt = next_cursor idx"
  shows "0 < k \<Longrightarrow> k \<le> n \<Longrightarrow> (next_cursor ^^ k) idx = 0 \<Longrightarrow>
           \<exists>r. scan_loop n E conn key idx vars w = Some r"
proof (induction n arbitrary: k idx vars w)
  case 0
  then show ?case by simp
next
  case (Suc n)
  let ?c = "conn_Do E conn ''SCAN'' (scan_args idx key) w"
  show ?case
  proof (cases "scan_reply (fst ?c)")
    case Panics
    then show ?thesis by (simp add: scan_loop_Suc)
  next
    case (Exits j)
    then show ?thesis by (simp add: scan_loop_Suc)
  next
    case (Returns x)
    show ?thesis
    proof (cases x)
      case (Inl err)
      with Returns show ?thesis by (simp add: scan_loop_Suc)
    next
      case (Inr p)
      obtain idx1 items where p: "p = (idx1, items)" by (cases p)
      from cursor Returns Inr p have nx: "idx1 = next_cursor idx" by simp
      obtain r2 w2 where il: "items_loop E conn vars items (snd ?c) = (r2, w2)"
        by (cases "items_loop E conn vars items (snd ?c)")
      show ?thesis
      proof (cases r2)
        case (Inl ve)
        with Returns Inr p il show ?thesis by (simp add: scan_loop_Suc)
      next
        case r2: (Inr vars1)
        show ?thesis
        proof (cases "idx1 = 0")
          case True
          with Returns Inr p il r2 show ?thesis by (simp add: scan_loop_Suc)
        next
          case False
          have k1: "k \<noteq> 1"
          proof
            assume "k = 1"
            with Suc.prems(3) nx False show False by simp
          qed
          with Suc.prems(1) obtain j where j: "k = Suc j" "0 < j" by (cases k) auto
          from Suc.prems(3) j nx have "(next_cursor ^^ j) idx1 = 0"
            by (simp add: funpow_swap1)
          moreover from Suc.prems(2) j have "j \<le> n" by simp
          ultimately obtain r where "scan_loop n E conn key idx1 vars1 w2 = Some r"
            using Suc.IH [OF j(2)] by blast
          with Returns Inr p il r2 False show ?thesis by (simp add: scan_loop_Suc)
        qed
      qed
    qed
  qed
qed

lemma scan_loop_more_fuel:
  "scan_loop n E conn key idx vars w = Some r \<Longrightarrow> scan_loop (n + m) E conn key idx vars w = Some r"
proof (induction n arbitrary: idx vars w)
  case 0
  then show ?case by simp
next
  case (Suc n)
  then show ?case
    by (auto simp: scan_loop_Suc split: prod.splits outcome.splits sum.splits if_splits)
qed

text \<open>
  C8. Let the store's cursors follow \<open>next_cursor\<close>: whenever the loop reads a page from the
  reply of \<^verbatim>\<open>SCAN\<close> at a cursor, the new cursor is \<open>next_cursor\<close> of the old one. If from
  cursor 0 the cursor is back at 0 after \<open>k\<close> calls, for a \<open>k\<close> of at most
  \<open>ceil(matchCount / 1000) + 1\<close>, then for every pattern, map and state of the world the
  pagination loop ends within that many iterations, it issues at most that many
  \<^verbatim>\<open>SCAN\<close> commands, and a larger bound on the iterations gives the same result.
\<close>

theorem scan_loop_terminates:
  fixes matchCount :: nat
  assumes cursor: "\<And>idx w nxt items.
      scan_reply (fst (conn_Do E conn ''SCAN'' (scan_args idx key) w)) = Returns (Inr (nxt, items))
        \<Longrightarrow> nxt = next_cursor idx"
    and ret: "0 < k" "k \<le> (matchCount + 999) div 1000 + 1" "(next_cursor ^^ k) 0 = 0"
  shows "\<exists>out w1 calls.
           scan_loop ((matchCount + 999) div 1000 + 1) (recording E) conn key 0 vars (w, l)
             = Some (out, (w1, l @ calls))
           \<and> length (filter (is_command ''SCAN'') calls) \<le> (matchCount + 999) div 1000 + 1
           \<and> (\<forall>m. scan_loop ((matchCount + 999) div 1000 + 1 + m) (recording E) conn key 0 vars (w, l)
                  = Some (out, (w1, l @ calls)))"
proof -
  let ?B = "(matchCount + 999) div 1000 + 1"
  have "\<exists>r. scan_loop ?B (recording E) conn key 0 vars (w, l) = Some r"
  proof (rule scan_loop_within [where next_cursor = next_cursor and k = k])
    fix idx wl nxt items
    assume "scan_reply (fst (conn_Do (recording E) conn ''SCAN'' (scan_args idx key) wl))
        = Returns (Inr (nxt, items))"
    then have "scan_reply (fst (conn_Do E conn ''SCAN'' (scan_args idx key) (fst wl)))
        = Returns (Inr (nxt, items))"
      by (simp add: recording_Do)
    then show "nxt = next_cursor idx" by (rule cursor)
  qed (use ret in simp_all)
  then obtain r where r: "scan_loop ?B (recording E) conn key 0 vars (w, l) = Some r"
    by blast
  obtain out w1 l1 where r3: "r = (out, (w1, l1))" by (cases r) auto
  from scan_loop_recorded [OF r [unfolded r3]] obtain calls where
    c: "l1 = l @ Do conn ''SCAN'' (scan_args 0 key) # calls"
    and n: "length (filter (is_command ''SCAN'') (Do conn ''SCAN'' (scan_args 0 key) # calls)) \<le> ?B"
    by auto
  from scan_loop_more_fuel [OF r] r3 c
  have "\<forall>m. scan_loop (?B + m) (recording E) conn key 0 vars (w, l)
                  = Some (out, (w1, l @ Do conn ''SCAN'' (scan_args 0 key) # calls))"
    by simp
  with r r3 c n show ?thesis by blast
qed

text \<open>
  A witness for C8: a store with two matching keys that answers cursor 0 with cursor 5 and
  cursor 5 with cursor 0; the loop issues two \<^verbatim>\<open>SCAN\<close> commands.
\<close>

theorem scan_loop_terminates_witness:
  "(0::nat) < 2 \<and> (2::nat) \<le> (2 + 999) div 1000 + 1
   \<and> ((\<lambda>i::int. if i = 0 then 5 else (0::int)) ^^ 2) 0 = 0
   \<and> map_option (\<lambda>r. snd (snd r))
        (scan_loop ((2 + 999) div 1000 + 1)
           (recording (fixed_env (\<lambda>a. False) (\<lambda>net a. Inr (0::nat))
              (\<lambda>c cmd args.
                 if cmd = ''SCAN''
                 then (if args = scan_args 0 ''/app/*''
                       then (Array [Bulk ''5'', Array [Bulk ''/app/a'']], None)
                       else (Array [Bulk ''0'', Array [Bulk ''/app/b'']], None))
                 else (Bulk ''v'', None))))
           0 ''/app/*'' 0 Map.empty ((), []))
      = Some [Do 0 ''SCAN'' (scan_args 0 ''/app/*''), Do 0 ''GET'' [S ''/app/a''],
              Do 0 ''SCAN'' (scan_args 5 ''/app/*''), Do 0 ''GET'' [S ''/app/b'']]"
proof -
  define E where "E = fixed_env (\<lambda>a. False) (\<lambda>net a. Inr (0::nat))
              (\<lambda>c cmd args.
                 if cmd = ''SCAN''
                 then (if args = scan_args 0 ''/app/*''
                       then (Array [Bulk ''5'', Array [Bulk ''/app/a'']], None)
                       else (Array [Bulk ''0'', Array [Bulk ''/app/b'']], None))
                 else (Bulk ''v'', None))"
  define nx where "nx = (\<lambda>i::int. if i = 0 then 5 else (0::int))"
  have p0: "scan_reply (Array [Bulk ''5'', Array [Bulk ''/app/a'']], None)
      = Returns (Inr (5, [''/app/a'']))"
    by code_simp
  have p1: "scan_reply (Array [Bulk ''0'', Array [Bulk ''/app/b'']], None)
      = Returns (Inr (0, [''/app/b'']))"
    by code_simp
  have cursor: "nxt = nx idx"
    if "scan_reply (fst (conn_Do E 0 ''SCAN'' (scan_args idx ''/app/*'') w)) = Returns (Inr (nxt, items))"
    for idx w nxt items
    using that p0 p1 by (cases "idx = 0") (auto simp: E_def fixed_env_def nx_def scan_args_def)
  have k: "(nx ^^ 2) 0 = 0" by (simp add: nx_def numeral_2_eq_2)
  have B: "(2 + 999) div 1000 + 1 = (2::nat)" by simp
  have r: "map_option (\<lambda>r. snd (snd r))
        (scan_loop 2 (recording E) 0 ''/app/*'' 0 Map.empty ((), []))
      = Some [Do 0 ''SCAN'' (scan_args 0 ''/app/*''), Do 0 ''GET'' [S ''/app/a''],
              Do 0 ''SCAN'' (scan_args 5 ''/app/*''), Do 0 ''GET'' [S ''/app/b'']]"
    unfolding E_def by code_simp
  from scan_loop_terminates [of E 0 "''/app/*''" nx 2 2 Map.empty "()" "[]", OF cursor _ _ k] r k
  show ?thesis unfolding E_def nx_def B by simp
qed

subsection \<open>The reply of \<^verbatim>\<open>SCAN\<close>\<close>

text \<open>
  C9 where it fails: the session answers \<^verbatim>\<open>GET\<close> and \<^verbatim>\<open>SCAN\<close> with a nil reply.
  \<^verbatim>\<open>redis.Values\<close> gives a nil slice beside \<^verbatim>\<open>redis.ErrNil\<close>, the test of the error lets
  \<^verbatim>\<open>redis.ErrNil\<close> pass, and \<^verbatim>\<open>values[0]\<close> is out of range: \<^verbatim>\<open>GetValues\<close> panics.
\<close>

theorem GetValues_nil_scan_reply_panics:
  "scan_reply (Nil, None) = Panics
   \<and> (case GetValues 1
          (fixed_env (\<lambda>a. False) (\<lambda>net a. Inr (1::nat))
             (\<lambda>c cmd args. if cmd = ''PING'' then (Status ''PONG'', None) else (Nil, None)))
          \<lparr>client = Some 0, machines = [''127.0.0.1:6379''], password = []\<rparr> [''/app''] ()
       of Some (Panics, c, w) \<Rightarrow> True | _ \<Rightarrow> False)"
  by code_simp

subsection \<open>The supervisory loop\<close>

text \<open>
  C5 where it fails: a signal is delivered and its case closes \<^verbatim>\<open>doneChan\<close>; before the
  \<^verbatim>\<open>select\<close> runs again a second signal is delivered; both the case of \<^verbatim>\<open>signalChan\<close> and
  the case of \<^verbatim>\<open>doneChan\<close> are ready, and when Go picks the first, \<^verbatim>\<open>close(doneChan)\<close>
  runs on a closed channel and the process panics instead of exiting with status 0.
\<close>

theorem supervisor_second_signal_panics:
  "run supervisor_start [Deliver SIGINT, Case_signalChan, Deliver SIGTERM, Case_signalChan]
   = Some \<lparr>errChan = [], signalChan = [], doneChan_closed = True, status = Panicked\<rparr>"
  by code_simp


subsection \<open>Errors and the map that \<^verbatim>\<open>GetValues\<close> returns\<close>







declare items_loop.simps(2) [simp del]


















end
